theory Spec2Isabelle
  imports Complex_Main "HOL-Library.Multiset" "HOL-Library.Sublist"
begin

section \<open>Drift radar: scoring engine and baseline aggregator\<close>

text \<open>
  A shallow embedding of the scoring core (\<^verbatim>\<open>analyze.ts\<close>, \<^verbatim>\<open>utils.ts\<close>) and of the
  pure part of \<^verbatim>\<open>computeBaseline\<close> (\<^verbatim>\<open>baseline.ts\<close>).

  Conventions of the model.
  \<^item> A JavaScript \<^verbatim>\<open>number\<close> that holds a counter is a \<open>nat\<close>; one that holds the result
    of \<^verbatim>\<open>Math.round\<close> is an \<open>int\<close>; every other \<^verbatim>\<open>number\<close> is a \<open>real\<close>. The arithmetic
    is exact: IEEE rounding of the double operations is not modelled.
  \<^item> A path is a \<open>string\<close> of 8-bit characters; \<^verbatim>\<open>toLowerCase\<close> maps \<open>A\<close>..\<open>Z\<close> to
    \<open>a\<close>..\<open>z\<close> and leaves every other character alone.
  \<^item> A \<^verbatim>\<open>Set<string>\<close> that is only queried is a \<open>string set\<close>; a \<^verbatim>\<open>Map\<close> or \<^verbatim>\<open>Set\<close> that
    is iterated is an association list or a list in insertion order.
\<close>

subsection \<open>utils.ts\<close>

definition clamp :: "'a::linorder \<Rightarrow> 'a \<Rightarrow> 'a \<Rightarrow> 'a" where
  "clamp mn mx v = max mn (min mx v)"

definition log10 :: "real \<Rightarrow> real" where
  "log10 x = ln x / ln 10"

text \<open>\<^verbatim>\<open>Math.round\<close>: the nearest integer, a half rounded towards plus infinity.\<close>

definition round_num :: "real \<Rightarrow> int" where
  "round_num n = \<lfloor>n + 1 / 2\<rfloor>"

definition median :: "real list \<Rightarrow> real option" where
  "median nums =
     (if length nums = 0 then None
      else let a = sort nums; mid = length a div 2
           in if length a mod 2 = 0 then Some ((a ! (mid - 1) + a ! mid) / 2)
              else Some (a ! mid))"

definition lower_char :: "char \<Rightarrow> char" where
  "lower_char c =
     (let n = (of_char c :: nat) in if 65 \<le> n \<and> n \<le> 90 then char_of (n + 32) else c)"

definition toLowerCase :: "string \<Rightarrow> string" where
  "toLowerCase p = map lower_char p"

definition startsWith :: "string \<Rightarrow> string \<Rightarrow> bool" where
  "startsWith s t = prefix t s"

definition endsWith :: "string \<Rightarrow> string \<Rightarrow> bool" where
  "endsWith s t = suffix t s"

definition includes_str :: "string \<Rightarrow> string \<Rightarrow> bool" where
  "includes_str s t = sublist t s"

definition isDocsPath :: "string \<Rightarrow> bool" where
  "isDocsPath p =
     (let lower = toLowerCase p in
      if startsWith lower ''docs/'' then True
      else if endsWith lower ''.md'' then True
      else if startsWith lower ''readme'' then True
      else False)"

definition isInfraPath :: "string \<Rightarrow> bool" where
  "isInfraPath p =
     (let lower = toLowerCase p in
      if startsWith lower ''.github/'' then True
      else if lower = ''dockerfile'' then True
      else if startsWith lower ''terraform/'' then True
      else if endsWith lower ''.yml'' \<or> endsWith lower ''.yaml'' then True
      else if endsWith lower ''.tf'' then True
      else False)"

definition isCorePath :: "string \<Rightarrow> bool" where
  "isCorePath p =
     (let lower = toLowerCase p in
      startsWith lower ''src/'' \<or> startsWith lower ''lib/'' \<or> startsWith lower ''app/'')"

definition isTestsPath :: "string \<Rightarrow> bool" where
  "isTestsPath p =
     (let lower = toLowerCase p in
      startsWith lower ''tests/'' \<or> includes_str lower ''/__tests__/''
      \<or> startsWith lower ''__tests__/'')"

definition depsFiles :: "string list" where
  "depsFiles =
     [''package.json'', ''package-lock.json'', ''pnpm-lock.yaml'', ''yarn.lock'',
      ''poetry.lock'', ''requirements.txt'', ''pipfile.lock'']"

definition isDepsPath :: "string \<Rightarrow> bool" where
  "isDepsPath p = (let lower = toLowerCase p in lower \<in> set depsFiles)"

subsection \<open>analyze.ts: data\<close>

record ClassifiedCounts =
  F :: nat
  L :: nat
  C :: nat
  T :: nat
  D :: nat
  I :: nat
  H :: nat
  docsOnly :: bool
  testCoverage :: real

datatype Verdict = Green | Yellow | Red

record Scores =
  S_size :: real
  S_deps :: real
  S_infra :: real
  S_hot :: real
  S_quality :: real
  base :: real
  amp :: real
  score :: int
  reviewMinutes :: int
  verdictEmoji :: Verdict

datatype DriverKey =
    CoreChangedWithoutTests
  | DependencyChurn
  | InfraConfigTouched
  | HotspotRepeatedlyModified
  | LargeChangeSize
  | LowTestCoverage

record Driver =
  key :: DriverKey
  label :: string
  contribution :: real

record PRFile =
  filename :: string
  additions :: nat
  deletions :: nat

subsection \<open>classifyFiles\<close>

text \<open>The local variables of the loop of \<^verbatim>\<open>classifyFiles\<close>.\<close>

record tally =
  nF :: nat
  nL :: nat
  nC :: nat
  nT :: nat
  nD :: nat
  nI :: nat
  nH :: nat
  docsCount :: nat

definition tally0 :: tally where
  "tally0 = \<lparr>nF = 0, nL = 0, nC = 0, nT = 0, nD = 0, nI = 0, nH = 0, docsCount = 0\<rparr>"

text \<open>
  One iteration of the loop. \<^verbatim>\<open>f.additions || 0\<close> is the identity on a natural number.
\<close>

definition classifyStep :: "string set \<Rightarrow> PRFile \<Rightarrow> tally \<Rightarrow> tally" where
  "classifyStep hotspotSet f s =
     (let lines = additions f + deletions f;
          path = filename f
      in \<lparr>nF = nF s + 1,
          nL = nL s + lines,
          nC = (if isCorePath path then nC s + 1 else nC s),
          nT = (if isTestsPath path then nT s + 1 else nT s),
          nD = (if isDepsPath path then nD s + 1 else nD s),
          nI = (if isInfraPath path then nI s + 1 else nI s),
          nH = (if path \<in> hotspotSet then nH s + 1 else nH s),
          docsCount = (if isDocsPath path then docsCount s + 1 else docsCount s)\<rparr>)"

definition classifyFiles :: "PRFile list \<Rightarrow> string set \<Rightarrow> ClassifiedCounts" where
  "classifyFiles files hotspotSet =
     (let s = fold (classifyStep hotspotSet) files tally0
      in \<lparr>F = nF s, L = nL s, C = nC s, T = nT s, D = nD s, I = nI s, H = nH s,
          docsOnly = (length files > 0 \<and> docsCount s = length files),
          testCoverage = real (nT s) / real (max 1 (nC s))\<rparr>)"

subsection \<open>computeReviewMinutes and computeScores\<close>

definition computeReviewMinutes :: "nat \<Rightarrow> nat \<Rightarrow> nat \<Rightarrow> nat \<Rightarrow> nat \<Rightarrow> nat \<Rightarrow> nat \<Rightarrow> int" where
  "computeReviewMinutes f l c t d i h =
     (let sizeUnits = sqrt (max 0 (real l)) + 2 * real f;
          m_core = 1 + 0.15 * min 5 (real c);
          m_infra = 1 + 0.2 * min 3 (real i);
          m_deps = 1 + 0.25 * min 2 (real d);
          m_hot = 1 + 0.1 * min 5 (real h);
          m_tests = 1 - 0.1 * min 3 (real t);
          raw = (sizeUnits / 12) * m_core * m_infra * m_deps * m_hot * m_tests
      in clamp 5 90 (round_num raw))"

definition computeScores :: "ClassifiedCounts \<Rightarrow> Scores" where
  "computeScores counts =
     (let size = clamp 0 100 (8 * real (F counts) + 12 * log10 (1 + max 0 (real (L counts))));
          deps = clamp 0 100 (35 * real (D counts));
          infra = clamp 0 100 (25 * real (I counts));
          hot = clamp 0 100 (20 * real (H counts));
          quality = clamp 0 100 (60 * (1 - min 1 (testCoverage counts)));
          b = 0.35 * size + 0.2 * quality + 0.2 * deps + 0.15 * infra + 0.1 * hot;
          amp0 = 1.0;
          amp1 = (if C counts > 0 \<and> T counts = 0 then amp0 + 0.15 else amp0);
          amp2 = (if D counts > 0 \<and> I counts > 0 then amp1 + 0.1 else amp1);
          amp3 = (if C counts > 0 \<and> D counts > 0 then amp2 + 0.1 else amp2);
          amp4 = (if H counts \<ge> 2 then amp3 + 0.05 else amp3);
          a = min 1.4 amp4;
          sc0 = clamp 0 100 (round_num (b * a));
          sc = (if docsOnly counts then min sc0 25 else sc0);
          verdict = (if sc \<le> 39 then Green else if sc \<le> 69 then Yellow else Red);
          minutes = computeReviewMinutes (F counts) (L counts) (C counts) (T counts)
                      (D counts) (I counts) (H counts)
      in \<lparr>S_size = size, S_deps = deps, S_infra = infra, S_hot = hot, S_quality = quality,
          base = b, amp = a, score = sc, reviewMinutes = minutes, verdictEmoji = verdict\<rparr>)"

subsection \<open>pickDrivers\<close>

text \<open>
  The array \<^verbatim>\<open>drivers\<close> after the six conditional pushes, in the order of the pushes.
\<close>

definition driverCandidates :: "ClassifiedCounts \<Rightarrow> Scores \<Rightarrow> Driver list" where
  "driverCandidates counts scores =
     (let contribLarge = 0.35 * S_size scores;
          qualityBase = 0.2 * S_quality scores;
          bonusCoreNoTests = (if C counts > 0 \<and> T counts = 0 then 12 else 0);
          contribLowTests =
            qualityBase + (if testCoverage counts < 1 then 0 else 0) + bonusCoreNoTests;
          depsBase = 0.2 * S_deps scores;
          bonusDepsInfra = (if D counts > 0 \<and> I counts > 0 then 6 else 0);
          bonusDepsCore = (if C counts > 0 \<and> D counts > 0 then 6 else 0);
          contribDeps = depsBase + bonusDepsInfra + bonusDepsCore;
          infraBase = 0.15 * S_infra scores;
          contribInfra = infraBase;
          hotBase = 0.1 * S_hot scores;
          bonusHot = (if H counts \<ge> 2 then 3 else 0);
          contribHot = hotBase + bonusHot
      in (if C counts > 0 \<and> T counts = 0
          then [\<lparr>key = CoreChangedWithoutTests, label = ''Core code modified without tests'',
                  contribution = bonusCoreNoTests + 0.15 * 100\<rparr>]
          else [])
         @ [\<lparr>key = LargeChangeSize, label = ''Large change size'',
               contribution = contribLarge\<rparr>]
         @ (if testCoverage counts < 1
            then [\<lparr>key = LowTestCoverage, label = ''Low test coverage'',
                    contribution = contribLowTests\<rparr>]
            else [])
         @ (if D counts > 0
            then [\<lparr>key = DependencyChurn, label = ''Dependency churn above baseline'',
                    contribution = contribDeps\<rparr>]
            else [])
         @ (if I counts > 0
            then [\<lparr>key = InfraConfigTouched, label = ''Infra/config touched'',
                    contribution = contribInfra\<rparr>]
            else [])
         @ (if H counts > 0
            then [\<lparr>key = HotspotRepeatedlyModified,
                    label = ''Repeated changes in hotspot folders'',
                    contribution = contribHot\<rparr>]
            else []))"

text \<open>
  \<^verbatim>\<open>bestByKey\<close> is a \<^verbatim>\<open>Map\<close>, which iterates in the order its keys were first inserted:
  an association list. \<open>mapSet\<close> is \<^verbatim>\<open>Map.set\<close> (a present key keeps its place) and
  \<open>mapGet\<close> is \<^verbatim>\<open>Map.get\<close>.
\<close>

fun mapGet :: "('k \<times> 'v) list \<Rightarrow> 'k \<Rightarrow> 'v option" where
  "mapGet [] k = None"
| "mapGet ((k', v) # m) k = (if k' = k then Some v else mapGet m k)"

fun mapSet :: "('k \<times> 'v) list \<Rightarrow> 'k \<Rightarrow> 'v \<Rightarrow> ('k \<times> 'v) list" where
  "mapSet [] k v = [(k, v)]"
| "mapSet ((k', v') # m) k v = (if k' = k then (k, v) # m else (k', v') # mapSet m k v)"

definition bestStep :: "Driver \<Rightarrow> (DriverKey \<times> Driver) list \<Rightarrow> (DriverKey \<times> Driver) list" where
  "bestStep d bestByKey =
     (case mapGet bestByKey (key d) of
        None \<Rightarrow> mapSet bestByKey (key d) d
      | Some existing \<Rightarrow>
          if contribution d > contribution existing then mapSet bestByKey (key d) d
          else bestByKey)"

text \<open>
  \<^verbatim>\<open>Array.prototype.sort\<close> is stable; the comparator \<^verbatim>\<open>b.contribution - a.contribution\<close>
  orders by contribution, larger first. \<open>sort_key\<close> is the stable insertion sort.
\<close>

definition pickDrivers :: "ClassifiedCounts \<Rightarrow> Scores \<Rightarrow> Driver list" where
  "pickDrivers counts scores =
     (let drivers = driverCandidates counts scores;
          bestByKey = fold bestStep drivers []
      in take 3 (sort_key (\<lambda>d. - contribution d) (map snd bestByKey)))"

subsection \<open>suggestedActions and analyze\<close>

definition suggestedActions :: "ClassifiedCounts \<Rightarrow> int \<Rightarrow> string list" where
  "suggestedActions counts sc =
     (if docsOnly counts then [''No action needed (docs-only change)'']
      else
        let a0 = [];
            a1 = (if C counts > 0 \<and> T counts = 0 then a0 @ [''Add targeted tests''] else a0);
            a2 = (if sc \<ge> 70 then a1 @ [''Split this PR'']
                  else if sc \<ge> 40 \<and> (D counts > 0 \<or> I counts > 0)
                  then a1 @ [''Add a focused review checklist'']
                  else a1);
            a3 = (if length a2 = 0 then a2 @ [''Proceed with normal review''] else a2)
        in take 2 a3)"

record AnalyzeResult =
  res_counts :: ClassifiedCounts
  res_scores :: Scores
  res_driversTop3 :: "Driver list"
  res_suggestedActions :: "string list"

definition analyze :: "PRFile list \<Rightarrow> string set \<Rightarrow> AnalyzeResult" where
  "analyze files hotspotSet =
     (let counts = classifyFiles files hotspotSet;
          scores = computeScores counts;
          driversTop3 = pickDrivers counts scores;
          suggested = suggestedActions counts (score scores)
      in \<lparr>res_counts = counts, res_scores = scores, res_driversTop3 = driversTop3,
          res_suggestedActions = suggested\<rparr>)"

subsection \<open>baseline.ts: computeBaseline\<close>

record BaselineData =
  computedAt :: string
  historyN :: nat
  baselineMedianScore :: "real option"
  hotspotFiles :: "string list"

text \<open>\<^verbatim>\<open>freq.set(f.filename, (freq.get(f.filename) ?? 0) + 1)\<close>\<close>

definition freqBump :: "PRFile \<Rightarrow> (string \<times> nat) list \<Rightarrow> (string \<times> nat) list" where
  "freqBump f freq =
     mapSet freq (filename f)
       ((case mapGet freq (filename f) of None \<Rightarrow> 0 | Some c \<Rightarrow> c) + 1)"

text \<open>
  The loop over \<^verbatim>\<open>toProcess\<close>: its state is the frequency table and the array of scores.
  The files of a merged change are what \<^verbatim>\<open>listPullFiles\<close> returned for it.
\<close>

definition baselineStep ::
  "PRFile list \<Rightarrow> (string \<times> nat) list \<times> int list \<Rightarrow> (string \<times> nat) list \<times> int list" where
  "baselineStep files st =
     (let freq = fold freqBump files (fst st);
          res = analyze files {}
      in (freq, snd st @ [score (res_scores res)]))"

text \<open>\<^verbatim>\<open>[...new Set(xs)]\<close>: the elements of \<open>xs\<close>, each at its first occurrence.\<close>

fun setValues :: "'a list \<Rightarrow> 'a list" where
  "setValues [] = []"
| "setValues (x # xs) = x # filter (\<lambda>y. y \<noteq> x) (setValues xs)"

text \<open>The entries of the frequency table, sorted by count, larger first (a stable sort).\<close>

definition freqEntries :: "PRFile list list \<Rightarrow> (string \<times> nat) list" where
  "freqEntries toProcess = fst (fold baselineStep toProcess ([], []))"

definition sortedEntries :: "PRFile list list \<Rightarrow> (string \<times> nat) list" where
  "sortedEntries toProcess = sort_key (\<lambda>e. - int (snd e)) (freqEntries toProcess)"

text \<open>
  \<open>computeBaseline now historyN merged\<close>: \<open>now\<close> is the time stamp the clock returns and
  \<open>merged\<close> holds, for each change number \<^verbatim>\<open>listMergedPulls\<close> returned, the files of that
  change.
\<close>

definition computeBaseline :: "string \<Rightarrow> nat \<Rightarrow> PRFile list list \<Rightarrow> BaselineData" where
  "computeBaseline now n merged =
     (if length merged = 0
      then \<lparr>computedAt = now, historyN = n, baselineMedianScore = None, hotspotFiles = []\<rparr>
      else
        let toProcess = take n merged;
            scores = snd (fold baselineStep toProcess ([], []));
            entries = sortedEntries toProcess;
            top10 = map fst (take 10 entries);
            threshold = map fst (filter (\<lambda>e. snd e \<ge> 3) entries);
            hotspotSet = setValues (top10 @ threshold);
            baselineMedianScore = median (map real_of_int scores)
        in \<lparr>computedAt = now, historyN = n, baselineMedianScore = baselineMedianScore,
            hotspotFiles = hotspotSet\<rparr>)"

subsection \<open>Inputs of the scenarios\<close>

definition fileA :: PRFile where
  "fileA = \<lparr>filename = ''src/a.ext'', additions = 50, deletions = 10\<rparr>"

definition fileB :: PRFile where
  "fileB = \<lparr>filename = ''docs/readme.ext'', additions = 5, deletions = 2\<rparr>"

definition fileR :: PRFile where
  "fileR = \<lparr>filename = ''src/readme.md'', additions = 50, deletions = 10\<rparr>"

definition countsCoreDeps :: ClassifiedCounts where
  "countsCoreDeps =
     \<lparr>F = 2, L = 120, C = 1, T = 0, D = 1, I = 0, H = 0, docsOnly = False, testCoverage = 0\<rparr>"

definition tieFiles :: "PRFile list" where
  "tieFiles =
     [\<lparr>filename = ''package.json'', additions = 5, deletions = 1\<rparr>,
      \<lparr>filename = ''tests/a.test.ts'', additions = 2, deletions = 1\<rparr>]"

definition tieHotspots :: "string set" where
  "tieHotspots = {''package.json'', ''tests/a.test.ts''}"

text \<open>
  The touch frequency of a path in a window of merged changes, for the statements about
  the hotspots: the number of file records of the window that name the path. (It is the
  number of changes that touch the path when no change lists a path twice.)
\<close>

definition touchCount :: "PRFile list list \<Rightarrow> string \<Rightarrow> nat" where
  "touchCount window p = count_list (map filename (concat window)) p"

text \<open>Scenario C: three changes touch \<^verbatim>\<open>src/a.ext\<close>, one touches \<^verbatim>\<open>infra/x.yml\<close>.\<close>

definition windowC :: "PRFile list list" where
  "windowC =
     [[\<lparr>filename = ''src/a.ext'', additions = 10, deletions = 2\<rparr>],
      [\<lparr>filename = ''src/a.ext'', additions = 4, deletions = 4\<rparr>],
      [\<lparr>filename = ''src/a.ext'', additions = 1, deletions = 0\<rparr>],
      [\<lparr>filename = ''infra/x.yml'', additions = 3, deletions = 1\<rparr>]]"

section \<open>Properties\<close>

subsection \<open>Arithmetic of the scoring functions\<close>

lemma log10_log: "log10 x = log 10 x"
  by (simp add: log10_def log_def)

lemma log10_lower:
  assumes "(10::real) ^ p \<le> x ^ q" "0 < x" "0 < q"
  shows "real p / real q \<le> log10 x"
proof -
  have "log 10 ((10::real) ^ p) \<le> log 10 (x ^ q)"
    using assms by (simp del: log_pow_cancel)
  then have "real p \<le> real q * log 10 x"
    using assms by (simp add: log_nat_power)
  then show ?thesis
    using assms by (simp add: log10_log divide_le_eq mult.commute)
qed

lemma log10_upper:
  assumes "x ^ q \<le> (10::real) ^ p" "0 < x" "0 < q"
  shows "log10 x \<le> real p / real q"
proof -
  have "log 10 (x ^ q) \<le> log 10 ((10::real) ^ p)"
    using assms by (simp del: log_pow_cancel)
  then have "real q * log 10 x \<le> real p"
    using assms by (simp add: log_nat_power)
  then show ?thesis
    using assms by (simp add: log10_log le_divide_eq mult.commute)
qed

lemma log10_61_lower: "1.78 \<le> log10 61"
  using log10_lower [of 89 61 50] by simp

lemma log10_61_upper: "log10 61 \<le> 25 / 14"
  using log10_upper [of 61 14 25] by simp

lemma log10_8_lower: "0.9 \<le> log10 8"
  using log10_lower [of 9 8 10] by simp

lemma log10_8_upper: "log10 8 \<le> 1"
  using log10_upper [of 8 1 1] by simp

lemma round_num_eq: "real_of_int k - 1 / 2 \<le> x \<Longrightarrow> x < real_of_int k + 1 / 2 \<Longrightarrow> round_num x = k"
  unfolding round_num_def by linarith

lemma clamp_bounds: "mn \<le> mx \<Longrightarrow> mn \<le> clamp mn mx v \<and> clamp mn mx v \<le> mx"
  by (simp add: clamp_def)

lemma score_range: "0 \<le> score (computeScores c) \<and> score (computeScores c) \<le> 100"
proof -
  define r where "r = round_num (base (computeScores c) * amp (computeScores c))"
  have cl: "0 \<le> clamp 0 100 r \<and> clamp 0 100 r \<le> 100"
    by (rule clamp_bounds) simp
  have "score (computeScores c) = (if docsOnly c then min (clamp 0 100 r) 25 else clamp 0 100 r)"
    by (simp add: computeScores_def Let_def r_def)
  with cl show ?thesis by (auto simp: min_def)
qed

lemma reviewMinutes_range:
  "5 \<le> computeReviewMinutes f l c t d i h \<and> computeReviewMinutes f l c t d i h \<le> 90"
  unfolding computeReviewMinutes_def Let_def by (rule clamp_bounds) simp

lemma reviewMinutes_computeScores:
  "reviewMinutes (computeScores c) = computeReviewMinutes (F c) (L c) (C c) (T c) (D c) (I c) (H c)"
  by (simp add: computeScores_def Let_def)

lemma suggestedActions_length:
  "1 \<le> length (suggestedActions c s) \<and> length (suggestedActions c s) \<le> 2"
  by (simp add: suggestedActions_def Let_def)

lemma pickDrivers_length: "length (pickDrivers c s) \<le> 3"
  by (simp add: pickDrivers_def Let_def)

text \<open>
  C1. For every file list (the empty one too) and every hotspot set, \<open>analyze\<close> returns a
  complete result: the counts of the classification, a final score in \<open>[0, 100]\<close>,
  \<open>reviewMinutes\<close> in \<open>[5, 90]\<close>, at most three drivers and one or two suggested actions.
  (\<open>analyze\<close> is a total function: it returns for every input.)
\<close>

theorem analyze_ranges:
  "0 \<le> score (res_scores (analyze files hs)) \<and> score (res_scores (analyze files hs)) \<le> 100
   \<and> 5 \<le> reviewMinutes (res_scores (analyze files hs))
   \<and> reviewMinutes (res_scores (analyze files hs)) \<le> 90
   \<and> res_counts (analyze files hs) = classifyFiles files hs
   \<and> length (res_driversTop3 (analyze files hs)) \<le> 3
   \<and> 1 \<le> length (res_suggestedActions (analyze files hs))
   \<and> length (res_suggestedActions (analyze files hs)) \<le> 2"
  using score_range [of "classifyFiles files hs"]
    reviewMinutes_range [of "F (classifyFiles files hs)" "L (classifyFiles files hs)"
      "C (classifyFiles files hs)" "T (classifyFiles files hs)" "D (classifyFiles files hs)"
      "I (classifyFiles files hs)" "H (classifyFiles files hs)"]
    suggestedActions_length [of "classifyFiles files hs"
      "score (computeScores (classifyFiles files hs))"]
    pickDrivers_length [of "classifyFiles files hs" "computeScores (classifyFiles files hs)"]
  by (simp add: analyze_def Let_def reviewMinutes_computeScores)

text \<open>The empty change, with any hotspot set, scores \<open>12\<close> and \<open>5\<close> minutes.\<close>

lemma analyze_empty:
  "score (res_scores (analyze [] hs)) = 12 \<and> reviewMinutes (res_scores (analyze [] hs)) = 5"
  by (simp add: analyze_def Let_def computeScores_def computeReviewMinutes_def
      classifyFiles_def tally0_def clamp_def round_num_def log10_def)

lemma fileA_preds:
  "isCorePath ''src/a.ext''" "\<not> isTestsPath ''src/a.ext''" "\<not> isDepsPath ''src/a.ext''"
  "\<not> isInfraPath ''src/a.ext''" "\<not> isDocsPath ''src/a.ext''"
  by code_simp+

lemma countsA:
  "classifyFiles [fileA] {} =
     \<lparr>F = 1, L = 60, C = 1, T = 0, D = 0, I = 0, H = 0, docsOnly = False, testCoverage = 0\<rparr>"
  by (simp add: classifyFiles_def classifyStep_def tally0_def fileA_def fileA_preds)

lemma sizeA: "29.36 \<le> 8 + 12 * log10 61 \<and> 8 + 12 * log10 61 \<le> 29.45"
  using log10_61_lower log10_61_upper by simp

lemma scoresA_fields:
  "S_size (computeScores (classifyFiles [fileA] {})) = 8 + 12 * log10 61"
  "S_quality (computeScores (classifyFiles [fileA] {})) = 60"
  "base (computeScores (classifyFiles [fileA] {})) = 0.35 * (8 + 12 * log10 61) + 12"
  "amp (computeScores (classifyFiles [fileA] {})) = 1.15"
  using sizeA by (simp_all add: countsA computeScores_def clamp_def Let_def)

lemma sqrt60: "7 \<le> sqrt 60 \<and> sqrt 60 \<le> 8"
proof
  show "7 \<le> sqrt 60" by (rule real_le_rsqrt) simp
  show "sqrt 60 \<le> 8" by (rule real_le_lsqrt) simp_all
qed

lemma scoreA: "score (computeScores (classifyFiles [fileA] {})) = 26"
proof -
  have r: "round_num (base (computeScores (classifyFiles [fileA] {}))
            * amp (computeScores (classifyFiles [fileA] {}))) = 26"
    using log10_61_lower log10_61_upper
    by (intro round_num_eq) (simp_all add: scoresA_fields)
  have "score (computeScores (classifyFiles [fileA] {})) =
          clamp 0 100 (round_num (base (computeScores (classifyFiles [fileA] {}))
            * amp (computeScores (classifyFiles [fileA] {}))))"
    by (simp add: countsA computeScores_def Let_def)
  then show ?thesis
    unfolding r by (simp add: clamp_def)
qed

lemma minutesA: "reviewMinutes (computeScores (classifyFiles [fileA] {})) = 5"
proof -
  have "round_num ((sqrt 60 + 2) / 12 * 1.15) = 1"
    using sqrt60 by (intro round_num_eq) simp_all
  then show ?thesis
    by (simp add: reviewMinutes_computeScores countsA computeReviewMinutes_def clamp_def Let_def)
qed

lemma verdict_computeScores:
  "verdictEmoji (computeScores c) =
     (if score (computeScores c) \<le> 39 then Green
      else if score (computeScores c) \<le> 69 then Yellow else Red)"
  by (simp add: computeScores_def Let_def)

text \<open>
  C2. Scenario A: the single file \<^verbatim>\<open>src/a.ext\<close> with 50 additions and 10 deletions and the
  empty hotspot set give \<open>F = 1\<close>, \<open>L = 60\<close>, \<open>C = 1\<close>, \<open>T = 0\<close>; \<open>S_size\<close> within \<open>0.05\<close> of
  \<open>29.4\<close>, \<open>S_quality = 60\<close>, \<open>base\<close> within \<open>0.05\<close> of \<open>22.3\<close>, \<open>amp = 1.15\<close>, the final
  score \<open>26\<close>, \<open>reviewMinutes = 5\<close> and the low verdict.
\<close>

theorem scenario_A:
  "F (res_counts (analyze [fileA] {})) = 1 \<and> L (res_counts (analyze [fileA] {})) = 60
   \<and> C (res_counts (analyze [fileA] {})) = 1 \<and> T (res_counts (analyze [fileA] {})) = 0
   \<and> \<bar>S_size (res_scores (analyze [fileA] {})) - 29.4\<bar> < 0.05
   \<and> S_quality (res_scores (analyze [fileA] {})) = 60
   \<and> \<bar>base (res_scores (analyze [fileA] {})) - 22.3\<bar> < 0.05
   \<and> amp (res_scores (analyze [fileA] {})) = 1.15
   \<and> score (res_scores (analyze [fileA] {})) = 26
   \<and> reviewMinutes (res_scores (analyze [fileA] {})) = 5
   \<and> verdictEmoji (res_scores (analyze [fileA] {})) = Green"
proof -
  have a: "res_counts (analyze [fileA] {}) = classifyFiles [fileA] {}"
    "res_scores (analyze [fileA] {}) = computeScores (classifyFiles [fileA] {})"
    by (simp_all add: analyze_def Let_def)
  have "\<bar>S_size (computeScores (classifyFiles [fileA] {})) - 29.4\<bar> < 0.05"
    "\<bar>base (computeScores (classifyFiles [fileA] {})) - 22.3\<bar> < 0.05"
    using log10_61_lower log10_61_upper unfolding scoresA_fields abs_less_iff by simp_all
  moreover have "verdictEmoji (computeScores (classifyFiles [fileA] {})) = Green"
    by (simp add: verdict_computeScores scoreA)
  ultimately show ?thesis
    unfolding a by (simp add: scoresA_fields scoreA minutesA) (simp add: countsA)
qed

subsection \<open>Classification\<close>

text \<open>
  C8. For every hotspot set, \<open>classifyFiles\<close> of the empty file list has the counts
  \<open>F\<close>, \<open>L\<close>, \<open>C\<close>, \<open>T\<close>, \<open>D\<close>, \<open>I\<close>, \<open>H\<close> all zero and \<open>docsOnly\<close> false.
\<close>

theorem classifyFiles_empty:
  "F (classifyFiles [] hs) = 0 \<and> L (classifyFiles [] hs) = 0 \<and> C (classifyFiles [] hs) = 0
   \<and> T (classifyFiles [] hs) = 0 \<and> D (classifyFiles [] hs) = 0 \<and> I (classifyFiles [] hs) = 0
   \<and> H (classifyFiles [] hs) = 0 \<and> \<not> docsOnly (classifyFiles [] hs)"
  by (simp add: classifyFiles_def tally0_def)

lemma classifyStep_commute:
  "classifyStep hs x \<circ> classifyStep hs y = classifyStep hs y \<circ> classifyStep hs x"
  by (rule ext) (simp add: classifyStep_def Let_def)

text \<open>
  C9. For every file list, every hotspot set and every permutation of the file list,
  \<open>classifyFiles\<close> returns the same counts for the permuted list as for the original one.
\<close>

theorem classifyFiles_permutation:
  assumes "mset files = mset files'"
  shows "classifyFiles files hs = classifyFiles files' hs"
proof -
  have "fold (classifyStep hs) files = fold (classifyStep hs) files'"
    by (rule fold_multiset_equiv) (simp_all add: classifyStep_commute assms)
  moreover have "length files = length files'"
    using assms by (rule mset_eq_length)
  ultimately show ?thesis
    by (simp add: classifyFiles_def)
qed

lemma fileB_preds:
  "\<not> isCorePath ''docs/readme.ext''" "\<not> isTestsPath ''docs/readme.ext''"
  "\<not> isDepsPath ''docs/readme.ext''" "\<not> isInfraPath ''docs/readme.ext''"
  "isDocsPath ''docs/readme.ext''"
  by code_simp+

theorem classifyFiles_permutation_witness:
  "mset [fileA, fileB] = mset [fileB, fileA]
   \<and> classifyFiles [fileA, fileB] {''src/a.ext''} = classifyFiles [fileB, fileA] {''src/a.ext''}"
  using classifyFiles_permutation [of "[fileA, fileB]" "[fileB, fileA]" "{''src/a.ext''}"]
  by (simp add: add.commute)

lemma fold_docsCount:
  "docsCount (fold (classifyStep hs) files s)
     = docsCount s + length (filter (\<lambda>f. isDocsPath (filename f)) files)"
  by (induction files arbitrary: s) (simp_all add: classifyStep_def Let_def)

lemma length_filter_all: "length (filter P xs) = length xs \<longleftrightarrow> (\<forall>x\<in>set xs. P x)"
proof -
  have "length (filter P xs) = length xs \<longleftrightarrow> length (filter (\<lambda>x. \<not> P x) xs) = 0"
    using sum_length_filter_compl [of P xs] by linarith
  also have "\<dots> \<longleftrightarrow> (\<forall>x\<in>set xs. P x)"
    by (simp add: filter_empty_conv)
  finally show ?thesis .
qed

lemma docsOnly_iff:
  "docsOnly (classifyFiles files hs) \<longleftrightarrow> files \<noteq> [] \<and> (\<forall>f\<in>set files. isDocsPath (filename f))"
  by (auto simp add: classifyFiles_def Let_def fold_docsCount tally0_def length_filter_all)

lemma docsOnly_score: "docsOnly c \<Longrightarrow> score (computeScores c) \<le> 25"
  by (simp add: computeScores_def Let_def)

lemma suggested_docsOnly:
  "docsOnly c \<Longrightarrow> suggestedActions c s = [''No action needed (docs-only change)'']"
  by (simp add: suggestedActions_def)

lemma countsB:
  "''docs/readme.ext'' \<notin> hs \<Longrightarrow> classifyFiles [fileB] hs =
     \<lparr>F = 1, L = 7, C = 0, T = 0, D = 0, I = 0, H = 0, docsOnly = True, testCoverage = 0\<rparr>"
  by (simp add: classifyFiles_def classifyStep_def tally0_def fileB_def fileB_preds)

lemma analyze_fields:
  "res_counts (analyze files hs) = classifyFiles files hs"
  "res_scores (analyze files hs) = computeScores (classifyFiles files hs)"
  "res_suggestedActions (analyze files hs)
     = suggestedActions (classifyFiles files hs) (score (computeScores (classifyFiles files hs)))"
  by (simp_all add: analyze_def Let_def)

lemma scoreB:
  assumes "''docs/readme.ext'' \<notin> hs"
  shows "score (computeScores (classifyFiles [fileB] hs)) = 19"
proof -
  have s: "0 \<le> 8 + 12 * log10 8" "8 + 12 * log10 8 \<le> 100"
    using log10_8_lower log10_8_upper by simp_all
  have r: "round_num ((0.35 * (8 + 12 * log10 8) + 12) * 1) = 19"
    using log10_8_lower log10_8_upper by (intro round_num_eq) simp_all
  have "score (computeScores (classifyFiles [fileB] hs))
          = min (clamp 0 100 (round_num ((0.35 * (8 + 12 * log10 8) + 12) * 1))) 25"
    using s by (simp add: countsB [OF assms] computeScores_def clamp_def Let_def)
  then show ?thesis
    unfolding r by (simp add: clamp_def)
qed

text \<open>
  C3. For every non-empty file list all of whose paths satisfy the documentation predicate,
  \<open>classifyFiles\<close> sets \<open>docsOnly\<close> and the final score of \<open>computeScores\<close> is at most \<open>25\<close>.
  Scenario B, the single file \<^verbatim>\<open>docs/readme.ext\<close> with 5 additions and 2 deletions: the
  suggested actions are exactly the single docs-only entry, and the final score is \<open>19\<close>
  (for a hotspot set that does not hold the path, the empty one of the scenarios included).
\<close>

theorem docs_only_cap:
  "(files \<noteq> [] \<and> (\<forall>f\<in>set files. isDocsPath (filename f))
      \<longrightarrow> docsOnly (classifyFiles files hs)
          \<and> score (computeScores (classifyFiles files hs)) \<le> 25)
   \<and> res_suggestedActions (analyze [fileB] hs) = [''No action needed (docs-only change)'']
   \<and> (''docs/readme.ext'' \<notin> hs \<longrightarrow> score (res_scores (analyze [fileB] hs)) = 19)"
proof -
  have "docsOnly (classifyFiles [fileB] hs)"
    by (simp add: docsOnly_iff fileB_def fileB_preds)
  then have "res_suggestedActions (analyze [fileB] hs) = [''No action needed (docs-only change)'']"
    unfolding analyze_fields by (rule suggested_docsOnly)
  then show ?thesis
    by (simp add: docsOnly_iff docsOnly_score analyze_fields scoreB)
qed

theorem docs_only_cap_witness:
  "[fileB] \<noteq> [] \<and> isDocsPath (filename fileB)
   \<and> docsOnly (classifyFiles [fileB] {})
   \<and> score (computeScores (classifyFiles [fileB] {})) \<le> 25
   \<and> res_suggestedActions (analyze [fileB] {}) = [''No action needed (docs-only change)'']
   \<and> ''docs/readme.ext'' \<notin> ({} :: string set)
   \<and> score (res_scores (analyze [fileB] {})) = 19"
  using docs_only_cap [of "[fileB]" "{}"]
  by (simp add: fileB_def fileB_preds)

lemma scoreB_hotspot:
  assumes "''docs/readme.ext'' \<in> hs"
  shows "score (computeScores (classifyFiles [fileB] hs)) = 21"
proof -
  have c: "classifyFiles [fileB] hs =
     \<lparr>F = 1, L = 7, C = 0, T = 0, D = 0, I = 0, H = 1, docsOnly = True, testCoverage = 0\<rparr>"
    using assms by (simp add: classifyFiles_def classifyStep_def tally0_def fileB_def fileB_preds)
  have s: "0 \<le> 8 + 12 * log10 8" "8 + 12 * log10 8 \<le> 100"
    using log10_8_lower log10_8_upper by simp_all
  have r: "round_num ((0.35 * (8 + 12 * log10 8) + 12 + 2) * 1) = 21"
    using log10_8_lower log10_8_upper by (intro round_num_eq) simp_all
  have "score (computeScores (classifyFiles [fileB] hs))
          = min (clamp 0 100 (round_num ((0.35 * (8 + 12 * log10 8) + 12 + 2) * 1))) 25"
    using s by (simp add: c computeScores_def clamp_def Let_def)
  then show ?thesis
    unfolding r by (simp add: clamp_def)
qed

lemma fileR_preds:
  "isCorePath ''src/readme.md''" "\<not> isTestsPath ''src/readme.md''"
  "\<not> isDepsPath ''src/readme.md''" "\<not> isInfraPath ''src/readme.md''"
  "isDocsPath ''src/readme.md''"
  by code_simp+

lemma countsR:
  "classifyFiles [fileR] {} =
     \<lparr>F = 1, L = 60, C = 1, T = 0, D = 0, I = 0, H = 0, docsOnly = True, testCoverage = 0\<rparr>"
  by (simp add: classifyFiles_def classifyStep_def tally0_def fileR_def fileR_preds)

lemma scoresR_fields:
  "base (computeScores (classifyFiles [fileR] {})) = 0.35 * (8 + 12 * log10 61) + 12"
  "amp (computeScores (classifyFiles [fileR] {})) = 1.15"
  using sizeA by (simp_all add: countsR computeScores_def clamp_def Let_def)

lemma roundR:
  "round_num (base (computeScores (classifyFiles [fileR] {}))
      * amp (computeScores (classifyFiles [fileR] {}))) = 26"
  using log10_61_lower log10_61_upper
  by (intro round_num_eq) (simp_all add: scoresR_fields)

lemma scoreR: "score (computeScores (classifyFiles [fileR] {})) = 25"
proof -
  have "score (computeScores (classifyFiles [fileR] {})) =
          min (clamp 0 100 (round_num (base (computeScores (classifyFiles [fileR] {}))
            * amp (computeScores (classifyFiles [fileR] {}))))) 25"
    by (simp add: countsR computeScores_def Let_def)
  then show ?thesis
    unfolding roundR by (simp add: clamp_def)
qed

lemma amp_untested_core: "C c > 0 \<Longrightarrow> T c = 0 \<Longrightarrow> 1.15 \<le> amp (computeScores c)"
  by (simp add: computeScores_def Let_def)

text \<open>
  C10. The file \<^verbatim>\<open>src/readme.md\<close> satisfies the documentation predicate (suffix \<^verbatim>\<open>.md\<close>)
  and the core predicate (prefix \<^verbatim>\<open>src/\<close>); alone in a change it gives \<open>docsOnly\<close> with
  \<open>C > 0\<close> and \<open>T = 0\<close>. For all counts with \<open>docsOnly\<close>, \<open>C > 0\<close> and \<open>T = 0\<close> the suggested
  actions are the docs-only entry alone (no \<^verbatim>\<open>Add targeted tests\<close>), the amplification still
  holds the untested-core bonus (\<open>amp \<ge> 1.15\<close>) and the final score is at most \<open>25\<close>. With 50
  additions and 10 deletions and no hotspot the rounded amplified score is \<open>26\<close> and the
  final score is the cap, \<open>25\<close>.
\<close>

theorem docs_and_core_overlap:
  "(isDocsPath (filename fileR) \<and> isCorePath (filename fileR)
      \<and> docsOnly (classifyFiles [fileR] hs) \<and> C (classifyFiles [fileR] hs) > 0
      \<and> T (classifyFiles [fileR] hs) = 0)
   \<and> (docsOnly c \<and> C c > 0 \<and> T c = 0
        \<longrightarrow> suggestedActions c (score (computeScores c))
              = [''No action needed (docs-only change)'']
            \<and> ''Add targeted tests'' \<notin> set (suggestedActions c (score (computeScores c)))
            \<and> 1.15 \<le> amp (computeScores c)
            \<and> score (computeScores c) \<le> 25)
   \<and> round_num (base (computeScores (classifyFiles [fileR] {}))
        * amp (computeScores (classifyFiles [fileR] {}))) = 26
   \<and> score (computeScores (classifyFiles [fileR] {})) = 25"
proof -
  have k: "C (classifyFiles [fileR] hs) > 0" "T (classifyFiles [fileR] hs) = 0"
    by (simp_all add: classifyFiles_def classifyStep_def tally0_def fileR_def fileR_preds)
  have d: "docsOnly (classifyFiles [fileR] hs)"
    by (simp add: docsOnly_iff fileR_def fileR_preds)
  have p: "isDocsPath (filename fileR)" "isCorePath (filename fileR)"
    by (simp_all add: fileR_def fileR_preds)
  {
    assume h: "docsOnly c" "C c > 0" "T c = 0"
    have a: "suggestedActions c (score (computeScores c))
               = [''No action needed (docs-only change)'']"
      using h(1) by (rule suggested_docsOnly)
    have b: "''Add targeted tests'' \<notin> set (suggestedActions c (score (computeScores c)))"
      unfolding a by simp
    have "1.15 \<le> amp (computeScores c)"
      using h(2,3) by (rule amp_untested_core)
    moreover have "score (computeScores c) \<le> 25"
      using h(1) by (rule docsOnly_score)
    ultimately have "suggestedActions c (score (computeScores c))
               = [''No action needed (docs-only change)'']
            \<and> ''Add targeted tests'' \<notin> set (suggestedActions c (score (computeScores c)))
            \<and> 1.15 \<le> amp (computeScores c)
            \<and> score (computeScores c) \<le> 25"
      using a b by blast
  }
  then show ?thesis
    using k d p roundR scoreR by blast
qed

theorem docs_and_core_overlap_witness:
  "docsOnly (classifyFiles [fileR] {}) \<and> C (classifyFiles [fileR] {}) > 0
   \<and> T (classifyFiles [fileR] {}) = 0
   \<and> suggestedActions (classifyFiles [fileR] {}) (score (computeScores (classifyFiles [fileR] {})))
        = [''No action needed (docs-only change)'']
   \<and> 1.15 \<le> amp (computeScores (classifyFiles [fileR] {}))
   \<and> score (computeScores (classifyFiles [fileR] {})) \<le> 25"
  using docs_and_core_overlap [of "{}" "classifyFiles [fileR] {}"]
  by blast

text \<open>
  C7. The action recommender: with \<open>docsOnly\<close> the result is the single docs-only entry,
  whatever the other counts and the score are. Otherwise the result holds
  \<^verbatim>\<open>Add targeted tests\<close> exactly when \<open>C > 0\<close> and \<open>T = 0\<close>; \<^verbatim>\<open>Split this PR\<close> exactly when the
  score is at least \<open>70\<close>; \<^verbatim>\<open>Add a focused review checklist\<close> exactly when
  \<open>40 \<le> score < 70\<close> and (\<open>D > 0\<close> or \<open>I > 0\<close>); \<^verbatim>\<open>Proceed with normal review\<close> exactly when
  none of these qualified; the entries stand in this order of generation, and there are at
  most two of them.
\<close>

theorem suggestedActions_table:
  "(docsOnly c \<longrightarrow> suggestedActions c s = [''No action needed (docs-only change)''])
   \<and> (\<not> docsOnly c \<longrightarrow>
        (''Add targeted tests'' \<in> set (suggestedActions c s) \<longleftrightarrow> C c > 0 \<and> T c = 0)
      \<and> (''Split this PR'' \<in> set (suggestedActions c s) \<longleftrightarrow> s \<ge> 70)
      \<and> (''Add a focused review checklist'' \<in> set (suggestedActions c s)
            \<longleftrightarrow> 40 \<le> s \<and> s < 70 \<and> (D c > 0 \<or> I c > 0))
      \<and> (''Proceed with normal review'' \<in> set (suggestedActions c s)
            \<longleftrightarrow> \<not> (C c > 0 \<and> T c = 0) \<and> \<not> s \<ge> 70
                \<and> \<not> (40 \<le> s \<and> s < 70 \<and> (D c > 0 \<or> I c > 0)))
      \<and> suggestedActions c s
            = filter (\<lambda>a. a \<in> set (suggestedActions c s))
                [''Add targeted tests'', ''Split this PR'', ''Add a focused review checklist'',
                 ''Proceed with normal review''])
   \<and> length (suggestedActions c s) \<le> 2"
  by (simp add: suggestedActions_def Let_def)

theorem suggestedActions_table_witness:
  "\<not> docsOnly countsCoreDeps
   \<and> ''Add targeted tests'' \<in> set (suggestedActions countsCoreDeps 55)
   \<and> ''Split this PR'' \<notin> set (suggestedActions countsCoreDeps 55)
   \<and> ''Add a focused review checklist'' \<in> set (suggestedActions countsCoreDeps 55)
   \<and> ''Proceed with normal review'' \<notin> set (suggestedActions countsCoreDeps 55)
   \<and> length (suggestedActions countsCoreDeps 55) \<le> 2
   \<and> docsOnly (classifyFiles [fileR] {})
   \<and> suggestedActions (classifyFiles [fileR] {}) 25 = [''No action needed (docs-only change)'']"
proof -
  have h: "\<not> docsOnly countsCoreDeps" "C countsCoreDeps > 0 \<and> T countsCoreDeps = 0"
    "\<not> (55::int) \<ge> 70" "(40::int) \<le> 55 \<and> (55::int) < 70 \<and> (D countsCoreDeps > 0 \<or> I countsCoreDeps > 0)"
    by (simp_all add: countsCoreDeps_def)
  have d: "docsOnly (classifyFiles [fileR] {})"
    by (simp add: countsR)
  show ?thesis
    using suggestedActions_table [of countsCoreDeps 55]
      suggestedActions_table [of "classifyFiles [fileR] {}" 25] h d
    by blast
qed

text \<open>
  C6. \<open>median\<close> of the empty list is absent; of a one-element list it is the element; of
  \<open>[1, 3]\<close> it is \<open>2\<close>; of a non-empty list of even length it is the average of the two middle
  values of the sorted list.
\<close>

theorem median_cases:
  "median [] = None \<and> median [x] = Some x \<and> median [1, 3] = Some 2
   \<and> (xs \<noteq> [] \<and> even (length xs)
        \<longrightarrow> median xs
              = Some ((sort xs ! (length xs div 2 - 1) + sort xs ! (length xs div 2)) / 2))"
  by (auto simp add: median_def Let_def)

theorem median_cases_witness:
  "median [] = None \<and> median [7] = Some 7 \<and> median [1, 3] = Some 2
   \<and> [4, 1, 3, 2] \<noteq> ([] :: real list) \<and> even (length [4, 1, 3, 2 :: real])
   \<and> median [4, 1, 3, 2] = Some (5 / 2)"
  using median_cases [of 7 "[4, 1, 3, 2]"]
  by simp

subsection \<open>Driver selection\<close>

lemma mapGet_map_of: "mapGet m k = map_of m k"
  by (induction m) auto

lemma mapSet_fresh: "k \<notin> fst ` set m \<Longrightarrow> mapSet m k v = m @ [(k, v)]"
  by (induction m) auto

lemma map_of_mapSet: "map_of (mapSet m k v) = (map_of m)(k \<mapsto> v)"
  by (induction m) (auto simp: fun_eq_iff)

lemma mapSet_keys:
  "map fst (mapSet m k v) = (if k \<in> fst ` set m then map fst m else map fst m @ [k])"
  by (induction m) force+

lemma bestStep_fresh:
  "key d \<notin> key ` set ms \<Longrightarrow>
     bestStep d (map (\<lambda>d. (key d, d)) ms) = map (\<lambda>d. (key d, d)) (ms @ [d])"
proof -
  assume a: "key d \<notin> key ` set ms"
  then have f: "key d \<notin> fst ` set (map (\<lambda>d. (key d, d)) ms)"
    by (simp add: image_image)
  then have "mapGet (map (\<lambda>d. (key d, d)) ms) (key d) = None"
    by (simp add: mapGet_map_of map_of_eq_None_iff)
  then show ?thesis
    by (simp add: bestStep_def mapSet_fresh [OF f])
qed

lemma fold_bestStep_distinct:
  "distinct (map key (ms @ ds)) \<Longrightarrow>
     fold bestStep ds (map (\<lambda>d. (key d, d)) ms) = map (\<lambda>d. (key d, d)) (ms @ ds)"
proof (induction ds arbitrary: ms)
  case Nil
  show ?case by simp
next
  case (Cons d ds)
  from Cons.prems have fresh: "key d \<notin> key ` set ms" by auto
  from Cons.prems have "distinct (map key ((ms @ [d]) @ ds))" by simp
  then have "fold bestStep ds (map (\<lambda>d. (key d, d)) (ms @ [d]))
               = map (\<lambda>d. (key d, d)) ((ms @ [d]) @ ds)"
    by (rule Cons.IH)
  then show ?case
    by (simp add: bestStep_fresh [OF fresh])
qed

lemma driverCandidates_distinct: "distinct (map key (driverCandidates c s))"
  by (simp add: driverCandidates_def Let_def)

lemma pickDrivers_sorted_candidates:
  "pickDrivers c s = take 3 (sort_key (\<lambda>d. - contribution d) (driverCandidates c s))"
proof -
  have "fold bestStep (driverCandidates c s) (map (\<lambda>d. (key d, d)) [])
          = map (\<lambda>d. (key d, d)) ([] @ driverCandidates c s)"
    by (rule fold_bestStep_distinct) (simp add: driverCandidates_distinct)
  then have "map snd (fold bestStep (driverCandidates c s) []) = driverCandidates c s"
    by (simp add: comp_def)
  then show ?thesis
    by (simp add: pickDrivers_def Let_def)
qed

lemma pickDrivers_distinct: "distinct (map key (pickDrivers c s))"
proof -
  let ?xs = "sort_key (\<lambda>d. - contribution d) (driverCandidates c s)"
  have "mset (map key ?xs) = mset (map key (driverCandidates c s))"
    by simp
  then have "distinct (map key ?xs)"
    using driverCandidates_distinct [of c s] by (metis mset_eq_imp_distinct_iff)
  then have "distinct (take 3 (map key ?xs))"
    by (rule distinct_take)
  then show ?thesis
    by (simp add: pickDrivers_sorted_candidates take_map)
qed

lemma pickDrivers_descending:
  "sorted_wrt (\<lambda>a b. contribution a \<ge> contribution b) (pickDrivers c s)"
proof -
  let ?xs = "sort_key (\<lambda>d. - contribution d) (driverCandidates c s)"
  have "sorted (map (\<lambda>d. - contribution d) ?xs)"
    by (rule sorted_sort_key)
  then have "sorted_wrt (\<lambda>a b. contribution a \<ge> contribution b) ?xs"
    by (simp add: sorted_map)
  then show ?thesis
    unfolding pickDrivers_sorted_candidates by (rule sorted_wrt_take)
qed

lemma pickDrivers_ties:
  "prefix (filter (\<lambda>d. contribution d = v) (pickDrivers c s))
          (filter (\<lambda>d. contribution d = v) (driverCandidates c s))"
proof -
  let ?xs = "sort_key (\<lambda>d. - contribution d) (driverCandidates c s)"
  have "filter (\<lambda>d. - contribution d = - v) ?xs
          = filter (\<lambda>d. - contribution d = - v) (driverCandidates c s)"
    by (rule sort_key_stable)
  then have e: "filter (\<lambda>d. contribution d = v) ?xs
          = filter (\<lambda>d. contribution d = v) (driverCandidates c s)"
    by simp
  have "prefix (filter (\<lambda>d. contribution d = v) (take 3 ?xs)) (filter (\<lambda>d. contribution d = v) ?xs)"
    by (rule filter_mono_prefix) (rule take_is_prefix)
  then show ?thesis
    by (simp add: pickDrivers_sorted_candidates e)
qed

lemma tie_preds:
  "\<not> isCorePath ''package.json''" "\<not> isTestsPath ''package.json''"
  "isDepsPath ''package.json''" "\<not> isInfraPath ''package.json''"
  "\<not> isDocsPath ''package.json''"
  "\<not> isCorePath ''tests/a.test.ts''" "isTestsPath ''tests/a.test.ts''"
  "\<not> isDepsPath ''tests/a.test.ts''" "\<not> isInfraPath ''tests/a.test.ts''"
  "\<not> isDocsPath ''tests/a.test.ts''"
  by code_simp+

lemma countsT:
  "classifyFiles tieFiles tieHotspots =
     \<lparr>F = 2, L = 9, C = 0, T = 1, D = 1, I = 0, H = 2, docsOnly = False, testCoverage = 1\<rparr>"
  by (simp add: classifyFiles_def classifyStep_def tally0_def tieFiles_def tieHotspots_def
      tie_preds)

lemma log10_10: "log10 10 = 1"
  by (simp add: log10_def)

lemma scoresT_fields:
  "S_size (computeScores (classifyFiles tieFiles tieHotspots)) = 28"
  "S_quality (computeScores (classifyFiles tieFiles tieHotspots)) = 0"
  "S_deps (computeScores (classifyFiles tieFiles tieHotspots)) = 35"
  "S_infra (computeScores (classifyFiles tieFiles tieHotspots)) = 0"
  "S_hot (computeScores (classifyFiles tieFiles tieHotspots)) = 40"
  by (simp_all add: countsT computeScores_def clamp_def Let_def log10_10)

lemma candidatesT:
  "driverCandidates (classifyFiles tieFiles tieHotspots)
      (computeScores (classifyFiles tieFiles tieHotspots)) =
     [\<lparr>key = LargeChangeSize, label = ''Large change size'', contribution = 49 / 5\<rparr>,
      \<lparr>key = DependencyChurn, label = ''Dependency churn above baseline'', contribution = 7\<rparr>,
      \<lparr>key = HotspotRepeatedlyModified, label = ''Repeated changes in hotspot folders'',
         contribution = 7\<rparr>]"
  by (simp add: driverCandidates_def Let_def scoresT_fields) (simp add: countsT)

lemma driversT:
  "res_driversTop3 (analyze tieFiles tieHotspots) =
     [\<lparr>key = LargeChangeSize, label = ''Large change size'', contribution = 49 / 5\<rparr>,
      \<lparr>key = DependencyChurn, label = ''Dependency churn above baseline'', contribution = 7\<rparr>,
      \<lparr>key = HotspotRepeatedlyModified, label = ''Repeated changes in hotspot folders'',
         contribution = 7\<rparr>]"
  by (simp add: analyze_def Let_def pickDrivers_sorted_candidates candidatesT)

text \<open>
  C4, as stated, fails: a change of \<^verbatim>\<open>package.json\<close> and \<^verbatim>\<open>tests/a.test.ts\<close> (9 changed lines),
  both hotspots, has the drivers \<^verbatim>\<open>Dependency churn\<close> (\<open>0.2 * 35 = 7\<close>) and
  \<^verbatim>\<open>Hotspot repeatedly modified\<close> (\<open>0.1 * 40 + 3 = 7\<close>) with the same contribution: the
  contributions \<open>9.8, 7, 7\<close> of the three drivers returned are not strictly descending.
\<close>

theorem pickDrivers_tie_counterexample:
  "map key (res_driversTop3 (analyze tieFiles tieHotspots))
     = [LargeChangeSize, DependencyChurn, HotspotRepeatedlyModified]
   \<and> map contribution (res_driversTop3 (analyze tieFiles tieHotspots)) = [49 / 5, 7, 7]
   \<and> \<not> contribution (res_driversTop3 (analyze tieFiles tieHotspots) ! 1)
        > contribution (res_driversTop3 (analyze tieFiles tieHotspots) ! 2)"
  by (simp add: driversT)

text \<open>
  C4, amended. For every sequence \<open>pickDrivers\<close> returns: it has at most 3 drivers, no two
  with the same key, and its contributions are descending but not strictly so (each is at
  least the next); drivers with the same contribution \<open>v\<close> keep the order the causes were
  generated in (they are an initial part of the generated drivers with contribution \<open>v\<close>).
\<close>

theorem pickDrivers_top3:
  "length (pickDrivers c s) \<le> 3
   \<and> distinct (map key (pickDrivers c s))
   \<and> sorted_wrt (\<lambda>a b. contribution a \<ge> contribution b) (pickDrivers c s)
   \<and> prefix (filter (\<lambda>d. contribution d = v) (pickDrivers c s))
            (filter (\<lambda>d. contribution d = v) (driverCandidates c s))"
  using pickDrivers_distinct [of c s] pickDrivers_descending [of c s] pickDrivers_ties [of v c s]
  by (simp add: pickDrivers_def Let_def)

theorem pickDrivers_top3_witness:
  "length (res_driversTop3 (analyze tieFiles tieHotspots)) \<le> 3
   \<and> distinct (map key (res_driversTop3 (analyze tieFiles tieHotspots)))
   \<and> sorted_wrt (\<lambda>a b. contribution a \<ge> contribution b)
        (res_driversTop3 (analyze tieFiles tieHotspots))
   \<and> prefix (filter (\<lambda>d. contribution d = 7) (res_driversTop3 (analyze tieFiles tieHotspots)))
        (filter (\<lambda>d. contribution d = 7)
          (driverCandidates (classifyFiles tieFiles tieHotspots)
             (computeScores (classifyFiles tieFiles tieHotspots))))"
  using pickDrivers_top3 [of "classifyFiles tieFiles tieHotspots"
      "computeScores (classifyFiles tieFiles tieHotspots)" 7]
  by (simp add: analyze_def Let_def)

subsection \<open>Baseline hotspots\<close>

lemma fst_fold_baselineStep:
  "fst (fold baselineStep window st) = fold freqBump (concat window) (fst st)"
  by (induction window arbitrary: st) (simp_all add: baselineStep_def Let_def)

lemma freqEntries_fold: "freqEntries window = fold freqBump (concat window) []"
  by (simp add: freqEntries_def fst_fold_baselineStep)

lemma freqBump_distinct: "distinct (map fst m) \<Longrightarrow> distinct (map fst (freqBump f m))"
  by (simp add: freqBump_def mapSet_keys)

lemma fold_freqBump_distinct:
  "distinct (map fst m) \<Longrightarrow> distinct (map fst (fold freqBump fs m))"
  by (induction fs arbitrary: m) (simp_all add: freqBump_distinct)

lemma map_of_freqBump:
  "map_of (freqBump f m) p =
     (if p = filename f then Some ((case map_of m p of None \<Rightarrow> 0 | Some c \<Rightarrow> c) + 1)
      else map_of m p)"
  by (simp add: freqBump_def map_of_mapSet mapGet_map_of)

lemma map_of_fold_freqBump:
  "map_of (fold freqBump fs m) p =
     (if count_list (map filename fs) p = 0 then map_of m p
      else Some ((case map_of m p of None \<Rightarrow> 0 | Some c \<Rightarrow> c)
                  + count_list (map filename fs) p))"
  by (induction fs arbitrary: m) (simp_all add: map_of_freqBump)

lemma freqEntries_distinct: "distinct (map fst (freqEntries window))"
  by (simp add: freqEntries_fold fold_freqBump_distinct)

lemma map_of_freqEntries:
  "map_of (freqEntries window) p =
     (if touchCount window p = 0 then None else Some (touchCount window p))"
  by (simp add: freqEntries_fold map_of_fold_freqBump touchCount_def)

lemma set_freqEntries:
  "set (freqEntries window) = {(p, touchCount window p) | p. 0 < touchCount window p}"
proof -
  have "(p, c) \<in> set (freqEntries window) \<longleftrightarrow> c = touchCount window p \<and> 0 < touchCount window p"
    for p c
    using map_of_eq_Some_iff [OF freqEntries_distinct, of window p c]
    by (auto simp: map_of_freqEntries split: if_splits)
  then show ?thesis by auto
qed

lemma set_setValues: "set (setValues xs) = set xs"
  by (induction xs) auto

lemma touchCount_pos: "0 < touchCount window p \<longleftrightarrow> p \<in> filename ` set (concat window)"
proof -
  have "touchCount window p \<noteq> 0 \<longleftrightarrow> p \<in> set (map filename (concat window))"
    unfolding touchCount_def by (simp only: count_list_0_iff not_not)
  then show ?thesis by simp
qed

lemma hotspotFiles_computeBaseline:
  "set (hotspotFiles (computeBaseline now n merged))
     = set (map fst (take 10 (sortedEntries (take n merged))))
       \<union> set (map fst (filter (\<lambda>e. snd e \<ge> 3) (sortedEntries (take n merged))))"
proof (cases "merged = []")
  case True
  then show ?thesis
    by (simp add: computeBaseline_def sortedEntries_def freqEntries_def)
next
  case False
  then show ?thesis
    by (simp add: computeBaseline_def Let_def set_setValues)
qed

lemma set_sortedEntries:
  "set (sortedEntries window) = {(p, touchCount window p) | p. 0 < touchCount window p}"
  by (simp add: sortedEntries_def set_freqEntries)

lemma threshold_paths:
  "set (map fst (filter (\<lambda>e. snd e \<ge> 3) (sortedEntries window))) = {p. 3 \<le> touchCount window p}"
proof -
  have "set (filter (\<lambda>e. snd e \<ge> 3) (sortedEntries window))
          = {(p, touchCount window p) | p. 3 \<le> touchCount window p}"
    by (auto simp: set_sortedEntries)
  then have "fst ` set (filter (\<lambda>e. snd e \<ge> 3) (sortedEntries window))
          = fst ` {(p, touchCount window p) | p. 3 \<le> touchCount window p}"
    by simp
  also have "\<dots> = {p. 3 \<le> touchCount window p}"
    by force
  finally show ?thesis by simp
qed

lemma sortedEntries_distinct: "distinct (map fst (sortedEntries window))"
proof -
  have "mset (map fst (sortedEntries window)) = mset (map fst (freqEntries window))"
    by (simp add: sortedEntries_def)
  then show ?thesis
    using freqEntries_distinct [of window] by (metis mset_eq_imp_distinct_iff)
qed

lemma sortedEntries_descending:
  "sorted_wrt (\<lambda>a b. snd a \<ge> snd b) (sortedEntries window)"
proof -
  have "sorted (map (\<lambda>e. - int (snd e)) (sortedEntries window))"
    unfolding sortedEntries_def by (rule sorted_sort_key)
  then show ?thesis
    by (simp add: sorted_map)
qed

lemma paths_sortedEntries:
  "set (map fst (sortedEntries window)) = {p. 0 < touchCount window p}"
proof -
  have "fst ` {(p, touchCount window p) | p. 0 < touchCount window p}
          = {p. 0 < touchCount window p}"
    by force
  then show ?thesis
    by (simp add: set_sortedEntries)
qed

lemma few_paths_all_hot:
  assumes "card {p. 0 < touchCount (take n merged) p} \<le> 10"
  shows "set (hotspotFiles (computeBaseline now n merged)) = {p. 0 < touchCount (take n merged) p}"
proof -
  let ?w = "take n merged"
  have "length (sortedEntries ?w) = length (map fst (sortedEntries ?w))"
    by simp
  also have "\<dots> = card (set (map fst (sortedEntries ?w)))"
    using sortedEntries_distinct [of ?w] by (simp only: distinct_card)
  also have "\<dots> \<le> 10"
    using assms by (simp only: paths_sortedEntries)
  finally have "take 10 (sortedEntries ?w) = sortedEntries ?w"
    by simp
  then have "set (hotspotFiles (computeBaseline now n merged))
               = {p. 0 < touchCount ?w p} \<union> {p. 3 \<le> touchCount ?w p}"
    using paths_sortedEntries [of ?w] threshold_paths [of ?w]
    by (simp only: hotspotFiles_computeBaseline)
  then show ?thesis by auto
qed

text \<open>
  C5. The hotspot set \<open>computeBaseline\<close> derives from the window it processes is the union
  of the paths of the first 10 entries of the frequency table sorted by frequency
  descending and of every path whose frequency is at least \<open>3\<close>. The sorted table lists
  every touched path once, with its touch frequency, larger frequencies first. Hence, when
  at most 10 distinct paths were touched (fewer than 10 in particular), every touched path
  is a hotspot; in scenario C both \<^verbatim>\<open>src/a.ext\<close> (3 touches) and \<^verbatim>\<open>infra/x.yml\<close> (1 touch)
  are.
\<close>

theorem baseline_hotspots:
  "set (hotspotFiles (computeBaseline now n merged))
     = set (map fst (take 10 (sortedEntries (take n merged))))
       \<union> {p. 3 \<le> touchCount (take n merged) p}
   \<and> distinct (map fst (sortedEntries (take n merged)))
   \<and> set (sortedEntries (take n merged))
       = {(p, touchCount (take n merged) p) | p. 0 < touchCount (take n merged) p}
   \<and> sorted_wrt (\<lambda>a b. snd a \<ge> snd b) (sortedEntries (take n merged))
   \<and> (card {p. 0 < touchCount (take n merged) p} \<le> 10
        \<longrightarrow> set (hotspotFiles (computeBaseline now n merged))
            = {p. 0 < touchCount (take n merged) p})"
proof -
  have "set (hotspotFiles (computeBaseline now n merged))
     = set (map fst (take 10 (sortedEntries (take n merged))))
       \<union> {p. 3 \<le> touchCount (take n merged) p}"
    by (simp only: hotspotFiles_computeBaseline threshold_paths)
  moreover note sortedEntries_distinct [of "take n merged"]
    set_sortedEntries [of "take n merged"] sortedEntries_descending [of "take n merged"]
  moreover have "card {p. 0 < touchCount (take n merged) p} \<le> 10
        \<longrightarrow> set (hotspotFiles (computeBaseline now n merged))
            = {p. 0 < touchCount (take n merged) p}"
    using few_paths_all_hot [of n merged now] by blast
  ultimately show ?thesis by blast
qed

theorem baseline_hotspots_witness:
  "touchCount (take 20 windowC) ''src/a.ext'' = 3
   \<and> touchCount (take 20 windowC) ''infra/x.yml'' = 1
   \<and> card {p. 0 < touchCount (take 20 windowC) p} \<le> 10
   \<and> set (hotspotFiles (computeBaseline ''2026-01-01T00:00:00.000Z'' 20 windowC))
       = {''src/a.ext'', ''infra/x.yml''}"
proof -
  have t: "{p. 0 < touchCount (take 20 windowC) p} = {''src/a.ext'', ''infra/x.yml''}"
    by (auto simp add: touchCount_pos windowC_def)
  have c: "touchCount (take 20 windowC) ''src/a.ext'' = 3"
    "touchCount (take 20 windowC) ''infra/x.yml'' = 1"
    by (simp_all add: touchCount_def windowC_def)
  have k: "card {p. 0 < touchCount (take 20 windowC) p} \<le> 10"
    unfolding t by simp
  show ?thesis
    using baseline_hotspots [of "''2026-01-01T00:00:00.000Z''" 20 windowC] c k
    unfolding t by blast
qed

end
